theory Spec2Isabelle
  imports Complex_Main
begin

section \<open>Python values used by the application\<close>

text \<open>
  The application is a Python script (\<^verbatim>\<open>app.py\<close>). Exceptions that the modelled code can
  raise are values of \<open>py_error\<close>; a function that may raise returns \<open>py_error + 'a\<close>,
  with \<open>Inl\<close> for the exception.
\<close>

datatype py_error = KeyError | IndexError | TypeError | OverflowError

subsection \<open>Decimal rendering of integers\<close>

definition digit_char :: "nat \<Rightarrow> char" where
  "digit_char d = char_of (48 + d)"

text \<open>\<^verbatim>\<open>str(n)\<close> for a natural number: its decimal digits, most significant first.\<close>

fun str_nat :: "nat \<Rightarrow> string" where
  "str_nat n = (if n < 10 then [digit_char n] else str_nat (n div 10) @ [digit_char (n mod 10)])"

declare str_nat.simps [simp del]

text \<open>\<^verbatim>\<open>"%d" % i\<close> and \<^verbatim>\<open>f"{i}"\<close> for a Python \<^verbatim>\<open>int\<close>.\<close>

definition str_int :: "int \<Rightarrow> string" where
  "str_int i = (if i < 0 then CHR ''-'' # str_nat (nat (- i)) else str_nat (nat i))"

text \<open>
  \<^verbatim>\<open>"%0Wd" % i\<close> for a non-negative \<open>i\<close>: the decimal rendering, padded on the left with
  zeros up to width \<open>W\<close>. (The two uses below format values in \<open>0..59\<close>.)
\<close>

definition fmt_0d :: "nat \<Rightarrow> int \<Rightarrow> string" where
  "fmt_0d width i = (let s = str_int i in replicate (width - length s) CHR ''0'' @ s)"

text \<open>\<^verbatim>\<open>int(x)\<close> for a finite Python \<^verbatim>\<open>float\<close> or \<^verbatim>\<open>int\<close>: truncation towards zero.\<close>

definition py_int :: "real \<Rightarrow> int" where
  "py_int x = (if 0 \<le> x then \<lfloor>x\<rfloor> else \<lceil>x\<rceil>)"

text \<open>\<^verbatim>\<open>s.split(c)\<close> for a one-character separator \<open>c\<close>.\<close>

fun split_char :: "char \<Rightarrow> string \<Rightarrow> string list" where
  "split_char c [] = [[]]"
| "split_char c (x # xs) =
     (if x = c then [] # split_char c xs
      else (case split_char c xs of [] \<Rightarrow> [[x]] | p # ps \<Rightarrow> (x # p) # ps))"

text \<open>\<^verbatim>\<open>sep.join(xs)\<close>.\<close>

fun join :: "string \<Rightarrow> string list \<Rightarrow> string" where
  "join sep [] = []"
| "join sep [x] = x"
| "join sep (x # y # ys) = x @ sep @ join sep (y # ys)"

subsection \<open>\<^verbatim>\<open>datetime.timedelta\<close>\<close>

text \<open>
  A \<^verbatim>\<open>timedelta\<close> is stored normalised as days, seconds in \<open>0..86399\<close> and microseconds in
  \<open>0..999999\<close>. \<^verbatim>\<open>timedelta(seconds=n)\<close> for an \<^verbatim>\<open>int\<close> \<open>n\<close> normalises by floor division
  and raises \<^verbatim>\<open>OverflowError\<close> when the day count exceeds \<open>999999999\<close> in magnitude.
\<close>

record timedelta =
  td_days :: int
  td_seconds :: int
  td_microseconds :: int

definition timedelta_seconds :: "int \<Rightarrow> py_error + timedelta" where
  "timedelta_seconds n =
     (let d = n div 86400; s = n mod 86400
      in if \<bar>d\<bar> > 999999999 then Inl OverflowError
         else Inr \<lparr>td_days = d, td_seconds = s, td_microseconds = 0\<rparr>)"

text \<open>
  \<^verbatim>\<open>str(td)\<close>: \<^verbatim>\<open>"%d:%02d:%02d" % (hh, mm, ss)\<close>, preceded by \<^verbatim>\<open>"%d day%s, "\<close> when the day
  count is not zero and followed by \<^verbatim>\<open>".%06d"\<close> when the microseconds are not zero.
\<close>

definition str_timedelta :: "timedelta \<Rightarrow> string" where
  "str_timedelta td =
     (let mm = td_seconds td div 60; ss = td_seconds td mod 60;
          hh = mm div 60; mm = mm mod 60;
          s = str_int hh @ '':'' @ fmt_0d 2 mm @ '':'' @ fmt_0d 2 ss;
          s = (if td_days td \<noteq> 0
               then str_int (td_days td) @ '' day''
                    @ (if \<bar>td_days td\<bar> \<noteq> 1 then ''s'' else '''') @ '', '' @ s
               else s);
          s = (if td_microseconds td \<noteq> 0 then s @ ''.'' @ fmt_0d 6 (td_microseconds td) else s)
      in s)"

section \<open>Transcript segmenter\<close>

subsection \<open>\<^verbatim>\<open>seconds_to_hms\<close>\<close>

definition seconds_to_hms :: "real \<Rightarrow> py_error + string" where
  "seconds_to_hms secs =
     (case timedelta_seconds (py_int secs) of
        Inl e \<Rightarrow> Inl e
      | Inr d \<Rightarrow>
          (let td = str_timedelta d;
               td = (if length (split_char CHR '':'' td) = 2 then ''00:'' @ td else td)
           in Inr (''['' @ td @ '']'')))"

subsection \<open>Words and the transcription response\<close>

text \<open>
  A word of the transcription response: \<^verbatim>\<open>word["word"]\<close>, \<^verbatim>\<open>word["start"]\<close> (seconds) and
  \<^verbatim>\<open>word["speaker"]\<close> (zero-based speaker id). Start times are finite numbers, modelled as
  reals; word texts are character sequences.
\<close>

record word =
  word :: string
  start :: real
  speaker :: int

text \<open>
  The response dictionary, as far as \<^verbatim>\<open>format_transcript\<close> navigates it:
  \<^verbatim>\<open>result["results"]["channels"][0]["alternatives"][0]["words"]\<close>. A key that may be absent
  is an \<open>option\<close> field (\<open>None\<close>: the key is not in the dictionary); \<open>metadata\<close> stands for
  the keys of the top-level dictionary other than \<^verbatim>\<open>"results"\<close>.
\<close>

record alternative =
  words :: "word list option"

record channel =
  alternatives :: "alternative list option"

record results_obj =
  channels :: "channel list option"

record response =
  metadata :: "string option"
  results :: "results_obj option"

text \<open>Truth value of a value that is \<^verbatim>\<open>None\<close> or a response dictionary: false for \<^verbatim>\<open>None\<close> and \<^verbatim>\<open>{}\<close>.\<close>

definition truthy_response :: "response option \<Rightarrow> bool" where
  "truthy_response result =
     (case result of None \<Rightarrow> False | Some r \<Rightarrow> metadata r \<noteq> None \<or> results r \<noteq> None)"

text \<open>Truth value of a value that is \<^verbatim>\<open>None\<close> or a string: false for \<^verbatim>\<open>None\<close> and \<^verbatim>\<open>""\<close>.\<close>

definition truthy_str :: "string option \<Rightarrow> bool" where
  "truthy_str v = (case v of None \<Rightarrow> False | Some s \<Rightarrow> s \<noteq> [])"

subsection \<open>\<^verbatim>\<open>format_transcript\<close>\<close>

definition dquote :: char where
  "dquote = CHR 0x22"

definition newline :: char where
  "newline = CHR 0x0A"

record loop_state =
  current_speaker :: "string option"
  current_start :: "real option"
  current_text :: "string list"
  formatted_transcript :: "string list"

text \<open>
  The line \<^verbatim>\<open>f"{seconds_to_hms(current_start)} {current_speaker}: \"{' '.join(current_text)}\""\<close>
  of the state's open block.
\<close>

definition block_line :: "loop_state \<Rightarrow> py_error + string" where
  "block_line s =
     (case current_start s of
        None \<Rightarrow> Inl TypeError
      | Some t \<Rightarrow>
          (case seconds_to_hms t of
             Inl e \<Rightarrow> Inl e
           | Inr hms \<Rightarrow>
               Inr (hms @ '' ''
                    @ (case current_speaker s of None \<Rightarrow> ''None'' | Some sp \<Rightarrow> sp)
                    @ '': '' @ [dquote] @ join '' '' (current_text s) @ [dquote])))"

text \<open>One iteration of \<^verbatim>\<open>for word in words\<close>.\<close>

definition loop_body :: "word \<Rightarrow> loop_state \<Rightarrow> py_error + loop_state" where
  "loop_body w s =
     (let speaker_label = ''Speaker '' @ str_int (speaker w + 1)
      in if Some speaker_label \<noteq> current_speaker s then
           (case (if current_speaker s \<noteq> None
                  then (case block_line s of
                          Inl e \<Rightarrow> Inl e
                        | Inr line \<Rightarrow> Inr (formatted_transcript s @ [line]))
                  else Inr (formatted_transcript s)) of
              Inl e \<Rightarrow> Inl e
            | Inr ft \<Rightarrow>
                Inr \<lparr>current_speaker = Some speaker_label,
                     current_start = Some (start w),
                     current_text = [word w],
                     formatted_transcript = ft\<rparr>)
         else Inr (s\<lparr>current_text := current_text s @ [word w]\<rparr>))"

fun word_loop :: "word list \<Rightarrow> loop_state \<Rightarrow> py_error + loop_state" where
  "word_loop [] s = Inr s"
| "word_loop (w # ws) s =
     (case loop_body w s of Inl e \<Rightarrow> Inl e | Inr s' \<Rightarrow> word_loop ws s')"

text \<open>
  The list \<^verbatim>\<open>formatted_transcript\<close> when \<^verbatim>\<open>format_transcript\<close> reaches its \<^verbatim>\<open>return\<close>: the
  loop from the initial state, then the last block when \<^verbatim>\<open>current_text\<close> is not empty.
\<close>

definition transcript_lines :: "word list \<Rightarrow> py_error + string list" where
  "transcript_lines ws =
     (case word_loop ws \<lparr>current_speaker = None, current_start = None,
                          current_text = [], formatted_transcript = []\<rparr> of
        Inl e \<Rightarrow> Inl e
      | Inr s \<Rightarrow>
          if current_text s \<noteq> [] then
            (case block_line s of
               Inl e \<Rightarrow> Inl e
             | Inr line \<Rightarrow> Inr (formatted_transcript s @ [line]))
          else Inr (formatted_transcript s))"

definition no_transcription :: string where
  "no_transcription = ''No transcription available''"

definition format_transcript :: "response option \<Rightarrow> py_error + string" where
  "format_transcript result =
     (if \<not> truthy_response result then Inr no_transcription
      else case result of
        None \<Rightarrow> Inr no_transcription
      | Some r \<Rightarrow>
         (case results r of
            None \<Rightarrow> Inr no_transcription
          | Some rs \<Rightarrow>
             (case channels rs of
                None \<Rightarrow> Inl KeyError
              | Some [] \<Rightarrow> Inl IndexError
              | Some (ch # _) \<Rightarrow>
                 (case alternatives ch of
                    None \<Rightarrow> Inl KeyError
                  | Some [] \<Rightarrow> Inl IndexError
                  | Some (alt # _) \<Rightarrow>
                     (case words alt of
                        None \<Rightarrow> Inl KeyError
                      | Some ws \<Rightarrow>
                         (case transcript_lines ws of
                            Inl e \<Rightarrow> Inl e
                          | Inr lines \<Rightarrow> Inr (join [newline] lines)))))))"

text \<open>The well-formed response whose first alternative of the first channel holds \<open>ws\<close>.\<close>

definition response_of_words :: "word list \<Rightarrow> response option" where
  "response_of_words ws =
     Some \<lparr>metadata = None,
           results = Some \<lparr>channels = Some [\<lparr>alternatives = Some [\<lparr>words = Some ws\<rparr>]\<rparr>]\<rparr>\<rparr>"

section \<open>Workflow state\<close>

text \<open>
  \<^verbatim>\<open>st.session_state\<close> with the keys the script initialises. \<^verbatim>\<open>None\<close> is \<open>None\<close>;
  \<^verbatim>\<open>datetime.now()\<close> is a value supplied from outside.
\<close>

type_synonym timestamp = nat

text \<open>An element of \<^verbatim>\<open>transcriptions\<close>: keys \<^verbatim>\<open>filename\<close>, \<^verbatim>\<open>transcript\<close>, \<^verbatim>\<open>timestamp\<close>.\<close>

record transcription_record =
  t_filename :: string
  t_transcript :: string
  t_timestamp :: timestamp

text \<open>An element of \<^verbatim>\<open>call_insights\<close>: keys \<^verbatim>\<open>filename\<close>, \<^verbatim>\<open>insights\<close>, \<^verbatim>\<open>transcript\<close>, \<^verbatim>\<open>timestamp\<close>.\<close>

record call_insight =
  filename :: string
  insights :: string
  transcript :: string
  timestamp :: timestamp

text \<open>
  An element of \<^verbatim>\<open>refinement_history\<close>: keys \<^verbatim>\<open>feedback\<close>, \<^verbatim>\<open>old_prompt\<close>, \<^verbatim>\<open>new_prompt\<close>,
  \<^verbatim>\<open>summary\<close>, \<^verbatim>\<open>timestamp\<close>. \<^verbatim>\<open>old_prompt\<close> holds whatever \<^verbatim>\<open>master_prompt\<close> held.
\<close>

record refinement =
  feedback :: string
  old_prompt :: "string option"
  new_prompt :: string
  summary :: string
  r_timestamp :: timestamp

record session_state =
  primary_prompt :: "string option"
  master_prompt :: "string option"
  call_insights :: "call_insight list"
  transcriptions :: "transcription_record list"
  api_configured :: bool
  current_phase :: int
  agent_details :: "(string \<times> string) list"
  refinement_history :: "refinement list"
  refinement_chat :: "string list"

text \<open>The state after the initialisation block has run on an empty \<^verbatim>\<open>st.session_state\<close>.\<close>

definition initial_state :: session_state where
  "initial_state =
     \<lparr>primary_prompt = None, master_prompt = None, call_insights = [], transcriptions = [],
      api_configured = False, current_phase = 1, agent_details = [],
      refinement_history = [], refinement_chat = []\<rparr>"

subsection \<open>The session dictionary, key by key\<close>

text \<open>
  The reset button deletes keys and the initialisation block tests which keys are present,
  so both are modelled on the dictionary itself: a map from key to value.
\<close>

datatype pyval =
    PyNone
  | PyStr string
  | PyBool bool
  | PyInt int
  | PyInsights "call_insight list"
  | PyTranscriptions "transcription_record list"
  | PyAgent "(string \<times> string) list"
  | PyRefinements "refinement list"
  | PyChat "string list"

type_synonym session_dict = "string \<Rightarrow> pyval option"

text \<open>\<^verbatim>\<open>if key not in st.session_state: st.session_state[key] = v\<close>.\<close>

definition setdefault :: "string \<Rightarrow> pyval \<Rightarrow> session_dict \<Rightarrow> session_dict" where
  "setdefault key v d = (if d key = None then d(key \<mapsto> v) else d)"

text \<open>
  The initialisation block at the top of the script, which every run executes first: nine
  statements of that form, in this order.
\<close>

definition session_defaults :: "(string \<times> pyval) list" where
  "session_defaults =
     [(''primary_prompt'', PyNone),
      (''master_prompt'', PyNone),
      (''call_insights'', PyInsights []),
      (''transcriptions'', PyTranscriptions []),
      (''api_configured'', PyBool False),
      (''current_phase'', PyInt 1),
      (''agent_details'', PyAgent []),
      (''refinement_history'', PyRefinements []),
      (''refinement_chat'', PyChat [])]"

definition initialize_session_state :: "session_dict \<Rightarrow> session_dict" where
  "initialize_session_state d = fold (\<lambda>(key, v). setdefault key v) session_defaults d"

text \<open>\<^verbatim>\<open>if key in st.session_state: del st.session_state[key]\<close>.\<close>

definition del_if_present :: "string \<Rightarrow> session_dict \<Rightarrow> session_dict" where
  "del_if_present key d = (if d key \<noteq> None then d(key := None) else d)"

definition reset_keys :: "string list" where
  "reset_keys = [''primary_prompt'', ''master_prompt'', ''call_insights'', ''transcriptions'',
                 ''agent_details'', ''refinement_history'', ''refinement_chat'']"

text \<open>
  The handler of the button ``Reset All Progress'': the deletion loop, the assignment of
  \<^verbatim>\<open>current_phase\<close>, and \<^verbatim>\<open>st.rerun()\<close>, which abandons the run and starts the script again,
  that is, runs the initialisation block on the dictionary as the handler left it.
\<close>

definition reset_all_progress_dict :: "session_dict \<Rightarrow> session_dict" where
  "reset_all_progress_dict d =
     initialize_session_state ((fold del_if_present reset_keys d)(''current_phase'' \<mapsto> PyInt 1))"

text \<open>The dictionary that holds a typed state.\<close>

definition dict_of :: "session_state \<Rightarrow> session_dict" where
  "dict_of s =
     [''primary_prompt'' \<mapsto> (case primary_prompt s of None \<Rightarrow> PyNone | Some p \<Rightarrow> PyStr p),
      ''master_prompt'' \<mapsto> (case master_prompt s of None \<Rightarrow> PyNone | Some p \<Rightarrow> PyStr p),
      ''call_insights'' \<mapsto> PyInsights (call_insights s),
      ''transcriptions'' \<mapsto> PyTranscriptions (transcriptions s),
      ''api_configured'' \<mapsto> PyBool (api_configured s),
      ''current_phase'' \<mapsto> PyInt (current_phase s),
      ''agent_details'' \<mapsto> PyAgent (agent_details s),
      ''refinement_history'' \<mapsto> PyRefinements (refinement_history s),
      ''refinement_chat'' \<mapsto> PyChat (refinement_chat s)]"

text \<open>The same handler on the typed state: everything but \<^verbatim>\<open>api_configured\<close> is initial again.\<close>

definition reset_all_progress :: "session_state \<Rightarrow> session_state" where
  "reset_all_progress s = initial_state\<lparr>api_configured := api_configured s\<rparr>"

subsection \<open>Batch processing of call recordings\<close>

text \<open>
  An uploaded recording together with what the two collaborators answer for it: the value
  \<^verbatim>\<open>transcribe_audio\<close> returns (the response dictionary, or \<^verbatim>\<open>None\<close> on a non-200 status or
  an exception), the value \<^verbatim>\<open>extract_call_insights\<close> returns for its transcript (the
  generated text, or \<^verbatim>\<open>None\<close> on an exception), and the two readings of \<^verbatim>\<open>datetime.now()\<close>.
\<close>

record audio_file =
  file_name :: string
  transcription_result :: "response option"
  insights_result :: "string option"
  transcribed_at :: timestamp
  analysed_at :: timestamp

record batch_state =
  session :: session_state
  successful_analyses :: nat
  failed_analyses :: nat

text \<open>The body of \<^verbatim>\<open>for i, audio_file in enumerate(files_to_process)\<close>, without its display calls.\<close>

definition process_file :: "audio_file \<Rightarrow> batch_state \<Rightarrow> py_error + batch_state" where
  "process_file audio b =
     (if truthy_response (transcription_result audio) then
        (case format_transcript (transcription_result audio) of
           Inl e \<Rightarrow> Inl e
         | Inr formatted \<Rightarrow>
             (let st = (session b)\<lparr>transcriptions := transcriptions (session b) @
                          [\<lparr>t_filename = file_name audio, t_transcript = formatted,
                            t_timestamp = transcribed_at audio\<rparr>]\<rparr>
              in if truthy_str (insights_result audio) then
                   Inr (b\<lparr>session := st\<lparr>call_insights := call_insights st @
                                   [\<lparr>filename = file_name audio,
                                     insights = the (insights_result audio),
                                     transcript = formatted,
                                     timestamp = analysed_at audio\<rparr>]\<rparr>,
                          successful_analyses := successful_analyses b + 1\<rparr>)
                 else Inr (b\<lparr>session := st, failed_analyses := failed_analyses b + 1\<rparr>)))
      else Inr (b\<lparr>failed_analyses := failed_analyses b + 1\<rparr>))"

text \<open>
  The loop over the files. Nothing catches an exception of \<^verbatim>\<open>format_transcript\<close>: it ends the
  run, and the session keeps what the files before it appended.
\<close>

fun process_files :: "audio_file list \<Rightarrow> batch_state \<Rightarrow> batch_state \<times> py_error option" where
  "process_files [] b = (b, None)"
| "process_files (audio # rest) b =
     (case process_file audio b of
        Inl e \<Rightarrow> (b, Some e)
      | Inr b' \<Rightarrow> process_files rest b')"

text \<open>
  The handler of the analyse button: the two key checks, then the loop with both counters
  at zero.
\<close>

definition analyze_calls ::
  "string \<Rightarrow> audio_file list \<Rightarrow> session_state \<Rightarrow> batch_state \<times> py_error option" where
  "analyze_calls deepgram_key files_to_process s =
     (if deepgram_key = [] then (\<lparr>session = s, successful_analyses = 0, failed_analyses = 0\<rparr>, None)
      else if \<not> api_configured s
        then (\<lparr>session = s, successful_analyses = 0, failed_analyses = 0\<rparr>, None)
      else process_files files_to_process
             \<lparr>session = s, successful_analyses = 0, failed_analyses = 0\<rparr>)"

subsection \<open>User actions\<close>

text \<open>
  \<^verbatim>\<open>c.isspace()\<close> on the characters of the model (code points below 256), and
  \<^verbatim>\<open>not s.strip()\<close>: the string has nothing but whitespace.
\<close>

definition isspace :: "char \<Rightarrow> bool" where
  "isspace c = (of_char c \<in> {9, 10, 11, 12, 13, 28, 29, 30, 31, 32, 133, 160 :: nat})"

definition blank :: "string \<Rightarrow> bool" where
  "blank s = list_all isspace s"

text \<open>
  One run of the script in which one button is pressed. The collaborators' answers and the
  widget contents are part of the event. A button is only drawn under the conditions of the
  enclosing \<^verbatim>\<open>if\<close>s; an event whose button is not drawn leaves the state as it is.
\<close>

datatype event =
    Configure_Gemini bool
  | Save_Agent_Details string string string string
  | Generate_Primary_Prompt string string "string option"
  | Analyze_Calls string "audio_file list"
  | Proceed_To_Phase_3
  | Regenerate_Master_Prompt
  | Generate_Master_Prompt "string option"
  | Refine_Prompt string "string option" timestamp
  | Reset_All_Progress

definition save_agent_details ::
  "string \<Rightarrow> string \<Rightarrow> string \<Rightarrow> string \<Rightarrow> session_state \<Rightarrow> session_state" where
  "save_agent_details agent_name company_name agent_language prompt_category s =
     (if truthy_str (primary_prompt s) then s
      else if agent_name \<noteq> [] \<and> company_name \<noteq> [] \<and> agent_language \<noteq> [] \<and> prompt_category \<noteq> []
        then s\<lparr>agent_details := [(''name'', agent_name), (''company'', company_name),
                                   (''language'', agent_language), (''category'', prompt_category)]\<rparr>
      else s)"

definition generate_primary ::
  "string \<Rightarrow> string \<Rightarrow> string option \<Rightarrow> session_state \<Rightarrow> session_state" where
  "generate_primary script_content template_content generated s =
     (if truthy_str (primary_prompt s) then s
      else if agent_details s = [] then s
      else if blank script_content then s
      else if blank template_content then s
      else if \<not> api_configured s then s
      else if truthy_str generated
        then s\<lparr>primary_prompt := generated, current_phase := 2\<rparr>
      else s)"

definition analyze :: "string \<Rightarrow> audio_file list \<Rightarrow> session_state \<Rightarrow> session_state" where
  "analyze deepgram_key files_to_process s =
     (if \<not> truthy_str (primary_prompt s) then s
      else if files_to_process = [] then s
      else session (fst (analyze_calls deepgram_key files_to_process s)))"

definition proceed_to_phase_3 :: "session_state \<Rightarrow> session_state" where
  "proceed_to_phase_3 s =
     (if \<not> truthy_str (primary_prompt s) then s
      else if length (call_insights s) > 0 then s\<lparr>current_phase := 3\<rparr>
      else s)"

definition regenerate_master :: "session_state \<Rightarrow> session_state" where
  "regenerate_master s =
     (if \<not> truthy_str (primary_prompt s) then s
      else if length (call_insights s) = 0 then s
      else if truthy_str (master_prompt s) then s\<lparr>master_prompt := None\<rparr>
      else s)"

definition generate_master :: "string option \<Rightarrow> session_state \<Rightarrow> session_state" where
  "generate_master generated s =
     (if \<not> truthy_str (primary_prompt s) then s
      else if length (call_insights s) = 0 then s
      else if truthy_str (master_prompt s) then s
      else if \<not> api_configured s then s
      else if truthy_str generated
        then s\<lparr>master_prompt := generated, current_phase := 4\<rparr>
      else s)"

definition refine :: "string \<Rightarrow> string option \<Rightarrow> timestamp \<Rightarrow> session_state \<Rightarrow> session_state" where
  "refine user_feedback refined_prompt now s =
     (if \<not> truthy_str (master_prompt s) then s
      else if blank user_feedback then s
      else if \<not> api_configured s then s
      else if truthy_str refined_prompt then
        s\<lparr>refinement_history := refinement_history s @
             [\<lparr>feedback = user_feedback,
               old_prompt = master_prompt s,
               new_prompt = the refined_prompt,
               summary = ''Updated prompt based on: '' @ take 100 user_feedback
                         @ (if length user_feedback > 100 then ''...'' else []),
               r_timestamp = now\<rparr>],
           master_prompt := refined_prompt\<rparr>
      else s)"

fun step :: "event \<Rightarrow> session_state \<Rightarrow> session_state" where
  "step (Configure_Gemini ok) s = s\<lparr>api_configured := ok\<rparr>"
| "step (Save_Agent_Details n c l k) s = save_agent_details n c l k s"
| "step (Generate_Primary_Prompt script template generated) s =
     generate_primary script template generated s"
| "step (Analyze_Calls deepgram_key files) s = analyze deepgram_key files s"
| "step Proceed_To_Phase_3 s = proceed_to_phase_3 s"
| "step Regenerate_Master_Prompt s = regenerate_master s"
| "step (Generate_Master_Prompt generated) s = generate_master generated s"
| "step (Refine_Prompt user_feedback refined now) s = refine user_feedback refined now s"
| "step Reset_All_Progress s = reset_all_progress s"

text \<open>The state after a sequence of actions, the first of the list first.\<close>

fun run :: "event list \<Rightarrow> session_state \<Rightarrow> session_state" where
  "run [] s = s"
| "run (e # es) s = run es (step e s)"

section \<open>What the specification says, for comparison\<close>

subsection \<open>Speaker turns\<close>

text \<open>
  The specification's SpeakerTurn: ``a maximal run of consecutive Words sharing the same
  speakerId, with utterance = space-joined word texts and startTimeSeconds = the first
  word's start time'', labelled \<^verbatim>\<open>Speaker <speakerId+1>\<close>.
\<close>

record speaker_turn =
  speaker_label :: string
  start_time :: real
  utterance :: string

text \<open>The maximal runs of equal speaker id, each as its first word and the words after it.\<close>

fun runs :: "word list \<Rightarrow> (word \<times> word list) list" where
  "runs [] = []"
| "runs (w # ws) =
     (case runs ws of
        [] \<Rightarrow> [(w, [])]
      | (v, vs) # rs \<Rightarrow>
          if speaker v = speaker w then (w, v # vs) # rs else (w, []) # (v, vs) # rs)"

definition turn_of_run :: "word \<times> word list \<Rightarrow> speaker_turn" where
  "turn_of_run r =
     \<lparr>speaker_label = ''Speaker '' @ str_int (speaker (fst r) + 1),
      start_time = start (fst r),
      utterance = join '' '' (map word (fst r # snd r))\<rparr>"

definition speaker_turns :: "word list \<Rightarrow> speaker_turn list" where
  "speaker_turns ws = map turn_of_run (runs ws)"

text \<open>``Each turn renders as \<^verbatim>\<open>[HH:MM:SS] Speaker <speakerId+1>: "<joined words>"\<close>'', with the
  program's own \<open>seconds_to_hms\<close> for the time.\<close>

definition render_turn :: "speaker_turn \<Rightarrow> py_error + string" where
  "render_turn t =
     (case seconds_to_hms (start_time t) of
        Inl e \<Rightarrow> Inl e
      | Inr hms \<Rightarrow>
          Inr (hms @ '' '' @ speaker_label t @ '': '' @ [dquote] @ utterance t @ [dquote]))"

text \<open>The start times for which \<^verbatim>\<open>timedelta(seconds=int(t))\<close> does not overflow.\<close>

definition in_timedelta_range :: "real \<Rightarrow> bool" where
  "in_timedelta_range t = (\<bar>py_int t div 86400\<bar> \<le> 999999999)"

subsection \<open>Current phase\<close>


subsection \<open>Version history\<close>

text \<open>
  ``The chain of oldPrompt\<rightarrow>newPrompt forms a linear version history where newPrompt of
  record k equals the prompt text in effect before record k+1.''
\<close>

fun linear_history :: "refinement list \<Rightarrow> bool" where
  "linear_history [] = True"
| "linear_history [r] = True"
| "linear_history (r # r' # rs) = (old_prompt r' = Some (new_prompt r) \<and> linear_history (r' # rs))"

text \<open>
  The history is linear and ends in the current master prompt: the state in which one more
  refinement extends the chain.
\<close>

definition history_current :: "session_state \<Rightarrow> bool" where
  "history_current s =
     (linear_history (refinement_history s) \<and>
      (refinement_history s = [] \<or>
       master_prompt s = Some (new_prompt (last (refinement_history s))) \<and>
       new_prompt (last (refinement_history s)) \<noteq> []))"

section \<open>Auxiliary notions of the proofs\<close>

text \<open>The loop state while the run that began with \<open>v\<close> and went on with \<open>vs\<close> is open.\<close>

definition open_state :: "word \<Rightarrow> word list \<Rightarrow> string list \<Rightarrow> loop_state" where
  "open_state v vs L =
     \<lparr>current_speaker = Some (''Speaker '' @ str_int (speaker v + 1)),
      current_start = Some (start v),
      current_text = map word (v # vs),
      formatted_transcript = L\<rparr>"

text \<open>A line that starts with the bracket of a time stamp.\<close>

definition bracketed :: "string \<Rightarrow> bool" where
  "bracketed l = (case l of [] \<Rightarrow> False | c # _ \<Rightarrow> c = CHR ''['')"

text \<open>The two records the batch loop appends for a recording that is analysed.\<close>

definition transcript_of :: "audio_file \<Rightarrow> string" where
  "transcript_of audio =
     (case format_transcript (transcription_result audio) of Inl e \<Rightarrow> [] | Inr formatted \<Rightarrow> formatted)"

definition transcription_of :: "audio_file \<Rightarrow> transcription_record" where
  "transcription_of audio =
     \<lparr>t_filename = file_name audio, t_transcript = transcript_of audio,
      t_timestamp = transcribed_at audio\<rparr>"

definition insight_of :: "audio_file \<Rightarrow> call_insight" where
  "insight_of audio =
     \<lparr>filename = file_name audio,
      insights = (case insights_result audio of None \<Rightarrow> [] | Some text \<Rightarrow> text),
      transcript = transcript_of audio,
      timestamp = analysed_at audio\<rparr>"

text \<open>A recording whose two steps succeed, and one whose transcription fails.\<close>

definition analysed_ok :: "audio_file \<Rightarrow> bool" where
  "analysed_ok audio =
     (truthy_response (transcription_result audio) \<and>
      (case format_transcript (transcription_result audio) of Inl e \<Rightarrow> False | Inr t \<Rightarrow> True) \<and>
      truthy_str (insights_result audio))"

definition transcription_failed :: "audio_file \<Rightarrow> bool" where
  "transcription_failed audio = (\<not> truthy_response (transcription_result audio))"

subsection \<open>Example inputs\<close>

text \<open>The words \<^verbatim>\<open>[{"hi",0.0,0},{"there",0.4,0},{"hello",1.0,1}]\<close>.\<close>

definition example_words :: "word list" where
  "example_words =
     [\<lparr>word = ''hi'', start = 0, speaker = 0\<rparr>,
      \<lparr>word = ''there'', start = 4 / 10, speaker = 0\<rparr>,
      \<lparr>word = ''hello'', start = 1, speaker = 1\<rparr>]"

text \<open>
  Three recordings: the first and the third are transcribed and analysed, the transcription
  of the second fails; and one whose transcription succeeds and whose analysis fails.
\<close>

definition example_ok_1 :: audio_file where
  "example_ok_1 =
     \<lparr>file_name = ''a.mp3'', transcription_result = response_of_words example_words,
      insights_result = Some ''first'', transcribed_at = 1, analysed_at = 2\<rparr>"

definition example_untranscribed :: audio_file where
  "example_untranscribed =
     \<lparr>file_name = ''b.mp3'', transcription_result = None,
      insights_result = None, transcribed_at = 3, analysed_at = 4\<rparr>"

definition example_ok_2 :: audio_file where
  "example_ok_2 =
     \<lparr>file_name = ''c.mp3'', transcription_result = response_of_words [],
      insights_result = Some ''third'', transcribed_at = 5, analysed_at = 6\<rparr>"

definition example_unanalysed :: audio_file where
  "example_unanalysed =
     \<lparr>file_name = ''d.mp3'', transcription_result = response_of_words example_words,
      insights_result = None, transcribed_at = 7, analysed_at = 8\<rparr>"

text \<open>The actions that lead from the start to a recorded primary prompt and one insight.\<close>

definition example_first_insight :: "event list" where
  "example_first_insight =
     [Configure_Gemini True,
      Save_Agent_Details ''Riya'' ''Acme'' ''English'' ''Lead Qualification'',
      Generate_Primary_Prompt ''script'' ''template'' (Some ''P''),
      Analyze_Calls ''key'' [example_ok_1]]"

text \<open>Going on to a master prompt and two refinements of it.\<close>

definition example_refined :: "event list" where
  "example_refined =
     example_first_insight @
     [Generate_Master_Prompt (Some ''M0''),
      Refine_Prompt ''warmer'' (Some ''M1'') 9,
      Refine_Prompt ''shorter'' (Some ''M2'') 10]"

text \<open>The same with the master prompt regenerated between the two refinements.\<close>

definition example_regenerated :: "event list" where
  "example_regenerated =
     example_first_insight @
     [Generate_Master_Prompt (Some ''M0''),
      Refine_Prompt ''warmer'' (Some ''M1'') 9,
      Regenerate_Master_Prompt,
      Generate_Master_Prompt (Some ''M2''),
      Refine_Prompt ''shorter'' (Some ''M3'') 10]"


text \<open>What the batch loop leaves alone, whether it ends or raises.\<close>

definition same_workflow :: "session_state \<Rightarrow> session_state \<Rightarrow> bool" where
  "same_workflow s s' =
     (primary_prompt s' = primary_prompt s \<and> master_prompt s' = master_prompt s \<and>
      current_phase s' = current_phase s \<and> api_configured s' = api_configured s \<and>
      agent_details s' = agent_details s \<and> refinement_history s' = refinement_history s \<and>
      refinement_chat s' = refinement_chat s \<and>
      (\<exists>ts. transcriptions s' = transcriptions s @ ts) \<and>
      (\<exists>cs. call_insights s' = call_insights s @ cs))"


section \<open>Properties of the decimal rendering and of the runs\<close>

lemma of_char_digit_char: "d < 10 \<Longrightarrow> of_char (digit_char d) = 48 + d"
  by (simp add: digit_char_def)

lemma digit_char_inj: "d < 10 \<Longrightarrow> e < 10 \<Longrightarrow> digit_char d = digit_char e \<Longrightarrow> d = e"
  by (metis of_char_digit_char add_left_cancel)

lemma digit_char_not_minus: "d < 10 \<Longrightarrow> digit_char d \<noteq> CHR ''-''"
proof
  assume "d < 10" and "digit_char d = CHR ''-''"
  then have "of_char (digit_char d) = (of_char (CHR ''-'') :: nat)" by simp
  with \<open>d < 10\<close> show False by (simp add: of_char_digit_char)
qed

lemma str_nat_not_Nil: "str_nat n \<noteq> []"
  by (subst str_nat.simps) simp

lemma str_nat_no_minus: "CHR ''-'' \<notin> set (str_nat n)"
proof (induction n rule: str_nat.induct)
  case (1 n)
  show ?case
  proof (cases "n < 10")
    case True
    then show ?thesis by (subst str_nat.simps) (simp add: digit_char_not_minus eq_commute)
  next
    case False
    with 1 show ?thesis
      by (subst str_nat.simps) (simp add: digit_char_not_minus eq_commute)
  qed
qed

lemma str_nat_inj: "str_nat n = str_nat m \<Longrightarrow> n = m"
proof (induction n arbitrary: m rule: str_nat.induct)
  case (1 n)
  show ?case
  proof (cases "n < 10")
    case n: True
    show ?thesis
    proof (cases "m < 10")
      case True
      with n 1(2) show ?thesis
        by (simp add: str_nat.simps [of n] str_nat.simps [of m] digit_char_inj)
    next
      case False
      with n 1(2) show ?thesis
        using str_nat_not_Nil [of "m div 10"]
        by (simp add: str_nat.simps [of n] str_nat.simps [of m])
    qed
  next
    case n: False
    show ?thesis
    proof (cases "m < 10")
      case True
      with n 1(2) show ?thesis
        using str_nat_not_Nil [of "n div 10"]
        by (simp add: str_nat.simps [of n] str_nat.simps [of m])
    next
      case False
      with n 1(2) have eq: "str_nat (n div 10) = str_nat (m div 10)"
        and d: "digit_char (n mod 10) = digit_char (m mod 10)"
        by (simp_all add: str_nat.simps [of n] str_nat.simps [of m])
      from 1(1) [OF n eq] have "n div 10 = m div 10" .
      moreover from d have "n mod 10 = m mod 10"
        by (auto intro: digit_char_inj)
      ultimately show ?thesis
        by (metis div_mult_mod_eq)
    qed
  qed
qed

lemma str_int_inj: "str_int i = str_int j \<Longrightarrow> i = j"
proof -
  assume eq: "str_int i = str_int j"
  have hd_nat: "\<And>n r. str_nat n \<noteq> CHR ''-'' # r"
    using str_nat_no_minus by (metis list.set_intros(1))
  show ?thesis
  proof (cases "i < 0")
    case i: True
    show ?thesis
    proof (cases "j < 0")
      case True
      with i eq have "str_nat (nat (- i)) = str_nat (nat (- j))" by (simp add: str_int_def)
      then have "nat (- i) = nat (- j)" by (rule str_nat_inj)
      with i True show ?thesis by simp
    next
      case False
      with i eq show ?thesis using hd_nat [of "nat j" "str_nat (nat (- i))"]
        by (simp add: str_int_def)
    qed
  next
    case i: False
    show ?thesis
    proof (cases "j < 0")
      case True
      with i eq show ?thesis using hd_nat [of "nat i" "str_nat (nat (- j))"]
        by (simp add: str_int_def)
    next
      case False
      with i eq have "str_nat (nat i) = str_nat (nat j)" by (simp add: str_int_def)
      then have "nat i = nat j" by (rule str_nat_inj)
      with i False show ?thesis by simp
    qed
  qed
qed

lemma length_split_char: "length (split_char c s) = Suc (length (filter (\<lambda>x. x = c) s))"
  by (induction s) (auto split: list.splits)

lemma str_timedelta_three_parts: "3 \<le> length (split_char CHR '':'' (str_timedelta d))"
  by (simp add: length_split_char str_timedelta_def Let_def)

lemma speaker_label_inj:
  "(''Speaker '' @ str_int (a + 1) = ''Speaker '' @ str_int (b + 1)) = (a = b)"
  using str_int_inj [of "a + 1" "b + 1"] by auto

lemma runs_Cons_hd: "\<exists>vs rs. runs (w # ws) = (w, vs) # rs"
  by (auto split: list.splits)

lemma runs_uniform: "\<forall>u\<in>set vs. speaker u = speaker v \<Longrightarrow> runs (v # vs) = [(v, vs)]"
proof (induction vs arbitrary: v)
  case Nil
  show ?case by simp
next
  case (Cons u vs)
  then have "runs (u # vs) = [(u, vs)]" by simp
  moreover from Cons.prems have "speaker u = speaker v" by simp
  ultimately show ?case by (simp del: runs.simps add: runs.simps(2) [of v])
qed

lemma runs_uniform_append:
  "\<forall>u\<in>set vs. speaker u = speaker v \<Longrightarrow> speaker w \<noteq> speaker v \<Longrightarrow>
   runs ((v # vs) @ w # ws) = (v, vs) # runs (w # ws)"
proof (induction vs arbitrary: v)
  case Nil
  obtain xs rs where r: "runs (w # ws) = (w, xs) # rs" using runs_Cons_hd by blast
  with Nil show ?case by (simp del: runs.simps add: runs.simps(2) [of v])
next
  case (Cons u vs)
  then have "runs ((u # vs) @ w # ws) = (u, vs) # runs (w # ws)" by simp
  moreover from Cons.prems have "speaker u = speaker v" by simp
  ultimately show ?case by (simp del: runs.simps add: runs.simps(2) [of v])
qed

lemma length_runs: "length (runs ws) = length (remdups_adj (map speaker ws))"
proof (induction ws)
  case Nil
  show ?case by simp
next
  case (Cons w ws)
  show ?case
  proof (cases ws)
    case Nil
    then show ?thesis by simp
  next
    case (Cons u us)
    obtain xs rs where r: "runs (u # us) = (u, xs) # rs" using runs_Cons_hd by blast
    from Cons.IH Cons r show ?thesis
      by (simp del: runs.simps add: runs.simps(2) [of w])
  qed
qed

lemma concat_runs: "concat (map (\<lambda>r. fst r # snd r) (runs ws)) = ws"
  by (induction ws) (auto split: list.splits)

lemma join_append:
  "xs \<noteq> [] \<Longrightarrow> ys \<noteq> [] \<Longrightarrow> join sep (xs @ ys) = join sep xs @ sep @ join sep ys"
  by (induction sep xs rule: join.induct) (auto simp: neq_Nil_conv)

lemma join_snoc: "xs \<noteq> [] \<Longrightarrow> join sep (xs @ [y]) = join sep xs @ sep @ y"
  using join_append [of xs "[y]" sep] by simp

lemma join_join:
  "\<forall>g\<in>set gs. g \<noteq> [] \<Longrightarrow> join sep (map (join sep) gs) = join sep (concat gs)"
proof (induction gs)
  case Nil
  show ?case by simp
next
  case (Cons g gs)
  show ?case
  proof (cases gs)
    case Nil
    then show ?thesis by simp
  next
    case (Cons h hs)
    with Cons.prems have "g \<noteq> []" "concat gs \<noteq> []" by auto
    with Cons.IH Cons.prems Cons show ?thesis
      by (simp add: join_append)
  qed
qed

lemma utterances_roundtrip:
  "join '' '' (map utterance (speaker_turns ws)) = join '' '' (map word ws)"
proof -
  have "map utterance (speaker_turns ws)
      = map (join '' '') (map (\<lambda>r. map word (fst r # snd r)) (runs ws))"
    by (simp add: speaker_turns_def turn_of_run_def comp_def)
  also have "join '' '' \<dots> = join '' '' (concat (map (\<lambda>r. map word (fst r # snd r)) (runs ws)))"
    by (rule join_join) auto
  also have "concat (map (\<lambda>r. map word (fst r # snd r)) (runs ws))
      = map word (concat (map (\<lambda>r. fst r # snd r) (runs ws)))"
    by (simp add: map_concat comp_def)
  finally show ?thesis by (simp add: concat_runs)
qed

section \<open>Properties of the segmenter loop\<close>

lemma seconds_to_hms_ok: "in_timedelta_range t \<Longrightarrow> \<exists>h. seconds_to_hms t = Inr h"
  by (simp add: seconds_to_hms_def timedelta_seconds_def in_timedelta_range_def Let_def)

lemma seconds_to_hms_bracket: "seconds_to_hms t = Inr h \<Longrightarrow> \<exists>r. h = CHR ''['' # r"
  by (auto simp: seconds_to_hms_def Let_def split: sum.splits if_splits)

lemma block_line_open: "block_line (open_state v vs L) = render_turn (turn_of_run (v, vs))"
  by (simp add: block_line_def open_state_def render_turn_def turn_of_run_def split: sum.splits)

lemma render_turn_ok:
  "in_timedelta_range (start v) \<Longrightarrow> \<exists>line. render_turn (turn_of_run (v, vs)) = Inr line"
  using seconds_to_hms_ok [of "start v"]
  by (auto simp: render_turn_def turn_of_run_def)

lemma loop_body_same:
  "speaker w = speaker v \<Longrightarrow> loop_body w (open_state v vs L) = Inr (open_state v (vs @ [w]) L)"
  by (simp add: loop_body_def open_state_def)

lemma loop_body_change:
  "speaker w \<noteq> speaker v \<Longrightarrow> render_turn (turn_of_run (v, vs)) = Inr line \<Longrightarrow>
   loop_body w (open_state v vs L) = Inr (open_state w [] (L @ [line]))"
  using block_line_open [of v vs L] str_int_inj [of "speaker w + 1" "speaker v + 1"]
  by (auto simp: loop_body_def open_state_def)

lemma loop_body_first:
  "loop_body w \<lparr>current_speaker = None, current_start = None, current_text = [],
                formatted_transcript = []\<rparr> = Inr (open_state w [] [])"
  by (simp add: loop_body_def open_state_def)

lemma speaker_turns_uniform:
  "\<forall>u\<in>set vs. speaker u = speaker v \<Longrightarrow> speaker_turns (v # vs) = [turn_of_run (v, vs)]"
  using runs_uniform [of vs v] by (simp add: speaker_turns_def)

lemma speaker_turns_change:
  "\<forall>u\<in>set vs. speaker u = speaker v \<Longrightarrow> speaker w \<noteq> speaker v \<Longrightarrow>
   speaker_turns (v # vs @ w # ws) = turn_of_run (v, vs) # speaker_turns (w # ws)"
  using runs_uniform_append [of vs v w ws] by (simp add: speaker_turns_def)

lemma word_loop_open:
  "\<forall>u\<in>set vs. speaker u = speaker v \<Longrightarrow> in_timedelta_range (start v) \<Longrightarrow>
   \<forall>w\<in>set ws. in_timedelta_range (start w) \<Longrightarrow>
   \<exists>s' line. word_loop ws (open_state v vs L) = Inr s' \<and> current_text s' \<noteq> [] \<and>
      block_line s' = Inr line \<and>
      map Inr (formatted_transcript s' @ [line])
        = map Inr L @ map render_turn (speaker_turns (v # vs @ ws))"
proof (induction ws arbitrary: v vs L)
  case Nil
  obtain line where line: "render_turn (turn_of_run (v, vs)) = Inr line"
    using render_turn_ok [OF Nil(2)] by blast
  have "word_loop [] (open_state v vs L) = Inr (open_state v vs L)" by simp
  moreover have "current_text (open_state v vs L) \<noteq> []" by (simp add: open_state_def)
  moreover have "block_line (open_state v vs L) = Inr line"
    by (simp add: block_line_open line)
  moreover have "map Inr (formatted_transcript (open_state v vs L) @ [line])
        = map Inr L @ map render_turn (speaker_turns (v # vs @ []))"
    using speaker_turns_uniform [OF Nil(1)] line by (simp add: open_state_def)
  ultimately show ?case by blast
next
  case (Cons w ws)
  show ?case
  proof (cases "speaker w = speaker v")
    case True
    have u: "\<forall>u\<in>set (vs @ [w]). speaker u = speaker v" using Cons.prems(1) True by simp
    have r: "\<forall>w\<in>set ws. in_timedelta_range (start w)" using Cons.prems(3) by simp
    from Cons.IH [OF u Cons.prems(2) r, of L]
    show ?thesis by (simp add: loop_body_same [OF True])
  next
    case False
    obtain line0 where line0: "render_turn (turn_of_run (v, vs)) = Inr line0"
      using render_turn_ok [OF Cons.prems(2)] by blast
    have u: "\<forall>u\<in>set []. speaker u = speaker w" by simp
    have w: "in_timedelta_range (start w)" using Cons.prems(3) by simp
    have r: "\<forall>w\<in>set ws. in_timedelta_range (start w)" using Cons.prems(3) by simp
    from Cons.IH [OF u w r, of "L @ [line0]"]
    show ?thesis
      by (simp add: loop_body_change [OF False line0]
            speaker_turns_change [OF Cons.prems(1) False] line0)
  qed
qed

lemma transcript_lines_turns:
  assumes "\<forall>w\<in>set ws. in_timedelta_range (start w)"
  shows "\<exists>lines. transcript_lines ws = Inr lines \<and>
           map Inr lines = map render_turn (speaker_turns ws)"
proof (cases ws)
  case Nil
  then show ?thesis by (simp add: transcript_lines_def speaker_turns_def)
next
  case (Cons w ws')
  have u: "\<forall>u\<in>set []. speaker u = speaker w" by simp
  have w: "in_timedelta_range (start w)" using assms Cons by simp
  have r: "\<forall>w\<in>set ws'. in_timedelta_range (start w)" using assms Cons by simp
  from word_loop_open [OF u w r, of "[]"]
  obtain s' line where "word_loop ws' (open_state w [] []) = Inr s'" "current_text s' \<noteq> []"
    "block_line s' = Inr line"
    "map Inr (formatted_transcript s' @ [line]) = map render_turn (speaker_turns (w # ws'))"
    by auto
  then show ?thesis
    using Cons by (simp add: transcript_lines_def loop_body_first)
qed

lemma block_line_bracketed: "block_line s = Inr line \<Longrightarrow> bracketed line"
  by (auto simp: block_line_def bracketed_def split: option.splits sum.splits
        dest: seconds_to_hms_bracket)

lemma loop_body_bracketed:
  "loop_body w s = Inr s' \<Longrightarrow> list_all bracketed (formatted_transcript s) \<Longrightarrow>
   list_all bracketed (formatted_transcript s')"
  by (auto simp: loop_body_def Let_def split: if_splits sum.splits dest: block_line_bracketed)

lemma word_loop_bracketed:
  "word_loop ws s = Inr s' \<Longrightarrow> list_all bracketed (formatted_transcript s) \<Longrightarrow>
   list_all bracketed (formatted_transcript s')"
proof (induction ws arbitrary: s)
  case Nil
  then show ?case by simp
next
  case (Cons w ws)
  then show ?case
    by (auto split: sum.splits dest: loop_body_bracketed)
qed

lemma transcript_lines_bracketed:
  "transcript_lines ws = Inr lines \<Longrightarrow> list_all bracketed lines"
  by (auto simp: transcript_lines_def split: sum.splits if_splits
        dest!: word_loop_bracketed block_line_bracketed)

lemma join_bracketed:
  "list_all bracketed lines \<Longrightarrow> join sep lines = [] \<or> bracketed (join sep lines)"
  by (induction sep lines rule: join.induct) (auto simp: bracketed_def split: list.splits)

lemma join_lines_not_sentinel:
  "transcript_lines ws = Inr lines \<Longrightarrow> join sep lines \<noteq> no_transcription"
  using join_bracketed [OF transcript_lines_bracketed, of ws lines sep]
  by (auto simp: no_transcription_def bracketed_def)

section \<open>Properties of the batch loop\<close>

lemma process_file_ok:
  "analysed_ok audio \<Longrightarrow>
   process_file audio b =
     Inr (b\<lparr>session := (session b)
               \<lparr>transcriptions := transcriptions (session b) @ [transcription_of audio],
                call_insights := call_insights (session b) @ [insight_of audio]\<rparr>,
            successful_analyses := successful_analyses b + 1\<rparr>)"
  by (auto simp: analysed_ok_def process_file_def Let_def transcription_of_def insight_of_def
        transcript_of_def truthy_str_def split: sum.splits option.splits)

lemma process_file_untranscribed:
  "transcription_failed audio \<Longrightarrow>
   process_file audio b = Inr (b\<lparr>failed_analyses := failed_analyses b + 1\<rparr>)"
  by (simp add: transcription_failed_def process_file_def)

lemma process_files_append:
  "process_files (xs @ ys) b =
     (case process_files xs b of
        (b', None) \<Rightarrow> process_files ys b'
      | (b', Some e) \<Rightarrow> (b', Some e))"
  by (induction xs arbitrary: b) (auto split: sum.splits)

lemma process_files_all_ok:
  "\<forall>a\<in>set fs. analysed_ok a \<Longrightarrow>
   \<exists>b'. process_files fs b = (b', None) \<and>
     call_insights (session b') = call_insights (session b) @ map insight_of fs \<and>
     transcriptions (session b') = transcriptions (session b) @ map transcription_of fs \<and>
     successful_analyses b' = successful_analyses b + length fs \<and>
     failed_analyses b' = failed_analyses b"
proof (induction fs arbitrary: b)
  case Nil
  show ?case by simp
next
  case (Cons a fs)
  then have a: "analysed_ok a" and fs: "\<forall>a\<in>set fs. analysed_ok a" by simp_all
  from Cons.IH [OF fs, of "b\<lparr>session := (session b)
               \<lparr>transcriptions := transcriptions (session b) @ [transcription_of a],
                call_insights := call_insights (session b) @ [insight_of a]\<rparr>,
            successful_analyses := successful_analyses b + 1\<rparr>"]
  show ?case by (auto simp: process_file_ok [OF a])
qed

lemma same_workflow_refl: "same_workflow s s"
  by (simp add: same_workflow_def)

lemma same_workflow_trans: "same_workflow s s' \<Longrightarrow> same_workflow s' s'' \<Longrightarrow> same_workflow s s''"
  by (auto simp: same_workflow_def)

lemma process_file_same_workflow:
  "process_file audio b = Inr b' \<Longrightarrow> same_workflow (session b) (session b')"
  by (auto simp: process_file_def Let_def same_workflow_def split: if_splits sum.splits)

lemma process_files_same_workflow:
  "same_workflow (session b) (session (fst (process_files fs b)))"
proof (induction fs arbitrary: b)
  case Nil
  show ?case by (simp add: same_workflow_refl)
next
  case (Cons a fs)
  show ?case
  proof (cases "process_file a b")
    case (Inl e)
    then show ?thesis by (simp add: same_workflow_refl)
  next
    case (Inr b')
    with Cons.IH [of b'] process_file_same_workflow [OF Inr] show ?thesis
      by (auto intro: same_workflow_trans)
  qed
qed

lemma analyze_same_workflow: "same_workflow s (analyze deepgram_key files s)"
  using process_files_same_workflow
          [of "\<lparr>session = s, successful_analyses = 0, failed_analyses = 0\<rparr>" files]
  by (simp add: analyze_def analyze_calls_def same_workflow_refl)

text \<open>The example recordings.\<close>

lemma example_ok_1_ok: "analysed_ok example_ok_1"
  by code_simp

lemma example_ok_2_ok: "analysed_ok example_ok_2"
  by code_simp

lemma example_untranscribed_failed: "transcription_failed example_untranscribed"
  by code_simp

section \<open>Properties of the session dictionary\<close>

lemma del_if_present_eq: "del_if_present key d = d(key := None)"
  by (auto simp: del_if_present_def fun_eq_iff)

lemma setdefault_other: "k \<noteq> key \<Longrightarrow> setdefault key v d k = d k"
  by (simp add: setdefault_def)

lemma setdefault_absent: "d key = None \<Longrightarrow> setdefault key v d key = Some v"
  by (simp add: setdefault_def)

lemma setdefault_present: "d key = Some x \<Longrightarrow> setdefault key v d key = Some x"
  by (simp add: setdefault_def)

lemma reset_dict_after_deletion:
  "(fold del_if_present reset_keys d)(''current_phase'' \<mapsto> PyInt 1) =
     d(''primary_prompt'' := None, ''master_prompt'' := None, ''call_insights'' := None,
       ''transcriptions'' := None, ''agent_details'' := None, ''refinement_history'' := None,
       ''refinement_chat'' := None, ''current_phase'' \<mapsto> PyInt 1)"
  by (simp add: reset_keys_def del_if_present_eq)

lemma reset_dict_reads:
  "reset_all_progress_dict d ''primary_prompt'' = Some PyNone"
  "reset_all_progress_dict d ''master_prompt'' = Some PyNone"
  "reset_all_progress_dict d ''call_insights'' = Some (PyInsights [])"
  "reset_all_progress_dict d ''refinement_history'' = Some (PyRefinements [])"
  "reset_all_progress_dict d ''transcriptions'' = Some (PyTranscriptions [])"
  "reset_all_progress_dict d ''agent_details'' = Some (PyAgent [])"
  "reset_all_progress_dict d ''refinement_chat'' = Some (PyChat [])"
  "reset_all_progress_dict d ''current_phase'' = Some (PyInt 1)"
  unfolding reset_all_progress_dict_def reset_dict_after_deletion initialize_session_state_def
    session_defaults_def
  by (simp_all add: setdefault_other setdefault_absent setdefault_present)

lemma reset_dict_of: "reset_all_progress_dict (dict_of s) = dict_of (reset_all_progress s)"
  by (rule ext)
    (simp add: reset_all_progress_dict_def dict_of_def reset_all_progress_def
      initialize_session_state_def session_defaults_def setdefault_def del_if_present_def
      reset_keys_def initial_state_def)

section \<open>Properties of the workflow state machine\<close>

lemma truthy_str_Some: "truthy_str (Some t) = (t \<noteq> [])"
  by (simp add: truthy_str_def)


lemma truthy_str_E: "truthy_str v \<Longrightarrow> \<exists>t. v = Some t \<and> t \<noteq> []"
  by (cases v) (simp_all add: truthy_str_def)

lemma refine_rejected:
  "\<not> (truthy_str (master_prompt s) \<and> \<not> blank fb \<and> api_configured s \<and> truthy_str refined) \<Longrightarrow>
   refine fb refined now s = s"
  by (auto simp: refine_def)

lemma refine_accepted:
  "truthy_str (master_prompt s) \<Longrightarrow> \<not> blank fb \<Longrightarrow> api_configured s \<Longrightarrow> new \<noteq> [] \<Longrightarrow>
   refine fb (Some new) now s =
     s\<lparr>refinement_history := refinement_history s @
          [\<lparr>feedback = fb, old_prompt = master_prompt s, new_prompt = new,
            summary = ''Updated prompt based on: '' @ take 100 fb
                      @ (if length fb > 100 then ''...'' else []),
            r_timestamp = now\<rparr>],
        master_prompt := Some new\<rparr>"
  by (simp add: refine_def truthy_str_Some)

lemma generate_master_rejected:
  "\<not> (truthy_str (primary_prompt s) \<and> call_insights s \<noteq> [] \<and> \<not> truthy_str (master_prompt s) \<and>
      api_configured s \<and> truthy_str generated) \<Longrightarrow>
   generate_master generated s = s"
  by (auto simp: generate_master_def)

lemma generate_master_accepted:
  "truthy_str (primary_prompt s) \<Longrightarrow> call_insights s \<noteq> [] \<Longrightarrow> \<not> truthy_str (master_prompt s) \<Longrightarrow>
   api_configured s \<Longrightarrow> gtext \<noteq> [] \<Longrightarrow>
   generate_master (Some gtext) s = s\<lparr>master_prompt := Some gtext, current_phase := 4\<rparr>"
  by (simp add: generate_master_def truthy_str_Some)

















lemma linear_history_snoc:
  "linear_history (h @ [r]) =
     (linear_history h \<and> (h = [] \<or> old_prompt r = Some (new_prompt (last h))))"
  by (induction h rule: linear_history.induct) auto

lemma history_current_initial: "history_current initial_state"
  by (simp add: history_current_def initial_state_def)

lemma history_current_refine:
  assumes "history_current s"
  shows "history_current (refine fb refined now s)"
proof (cases "truthy_str (master_prompt s) \<and> \<not> blank fb \<and> api_configured s \<and> truthy_str refined")
  case False
  with assms show ?thesis by (simp add: refine_rejected)
next
  case True
  then obtain new where t: "refined = Some new" "new \<noteq> []" by (auto dest: truthy_str_E)
  with assms True show ?thesis
    by (auto simp: refine_accepted history_current_def linear_history_snoc)
qed

lemma history_current_analyze:
  assumes "history_current s"
  shows "history_current (analyze deepgram_key files s)"
proof -
  from analyze_same_workflow [of s deepgram_key files]
  have "master_prompt (analyze deepgram_key files s) = master_prompt s"
    "refinement_history (analyze deepgram_key files s) = refinement_history s"
    by (auto simp: same_workflow_def)
  with assms show ?thesis by (simp add: history_current_def)
qed

lemma history_current_generate_master:
  assumes "history_current s"
  shows "history_current (generate_master generated s)"
proof (cases "truthy_str (primary_prompt s) \<and> call_insights s \<noteq> [] \<and> \<not> truthy_str (master_prompt s) \<and>
      api_configured s \<and> truthy_str generated")
  case False
  with assms show ?thesis by (simp add: generate_master_rejected)
next
  case True
  then obtain gtext where t: "generated = Some gtext" "gtext \<noteq> []" by (auto dest: truthy_str_E)
  from True assms have "refinement_history s = []"
    by (auto simp: history_current_def truthy_str_Some)
  with True t show ?thesis
    by (simp add: generate_master_accepted history_current_def)
qed

lemma history_current_generate_primary:
  "history_current s \<Longrightarrow> history_current (generate_primary script template generated s)"
  by (simp add: history_current_def generate_primary_def)

lemma history_current_step:
  "history_current s \<Longrightarrow> e \<noteq> Regenerate_Master_Prompt \<Longrightarrow> history_current (step e s)"
  by (cases e)
    (simp_all add: history_current_analyze history_current_generate_master
      history_current_refine history_current_generate_primary,
     simp_all add: history_current_def save_agent_details_def proceed_to_phase_3_def
       reset_all_progress_def initial_state_def)

lemma history_current_run:
  "history_current s \<Longrightarrow> Regenerate_Master_Prompt \<notin> set evs \<Longrightarrow> history_current (run evs s)"
proof (induction evs arbitrary: s)
  case Nil
  then show ?case by simp
next
  case (Cons e evs)
  then have "history_current (step e s)" by (auto intro: history_current_step)
  with Cons show ?case by simp
qed


section \<open>The segmenter claims\<close>

text \<open>
  C1. The claim: for every duration in seconds, \<open>seconds_to_hms\<close> renders zero-padded
  \<^verbatim>\<open>[HH:MM:SS]\<close> with the fraction truncated; 3661 seconds render as \<^verbatim>\<open>[01:01:01]\<close> and 59.9
  seconds as \<^verbatim>\<open>[00:00:59]\<close>.

  The program truncates, but it does not pad the hours: \<^verbatim>\<open>str(timedelta)\<close> has the form
  \<^verbatim>\<open>H:MM:SS\<close>, which always splits into three parts at the colons, so the branch that would
  prepend \<^verbatim>\<open>00:\<close> is never taken (third conjunct). The theorem evaluates the program at
  both inputs of the claim: the results are \<^verbatim>\<open>[1:01:01]\<close> and \<^verbatim>\<open>[0:00:59]\<close>. (The float nearest to 59.9 lies
  strictly between 59 and 60, so the real number 59.9 stands for it.)
\<close>

theorem C1_hours_not_zero_padded:
  "seconds_to_hms 3661 = Inr ''[1:01:01]'' \<and>
   seconds_to_hms (599 / 10) = Inr ''[0:00:59]'' \<and>
   length (split_char CHR '':'' (str_timedelta d)) \<noteq> 2"
proof -
  have a: "seconds_to_hms 3661 = Inr ''[1:01:01]''" by code_simp
  have b: "seconds_to_hms (599 / 10) = Inr ''[0:00:59]''" by code_simp
  from str_timedelta_three_parts [of d]
  have c: "length (split_char CHR '':'' (str_timedelta d)) \<noteq> 2" by linarith
  from a b c show ?thesis by blast
qed

text \<open>
  C7. The claim: the words \<^verbatim>\<open>[{"hi",0.0,0},{"there",0.4,0},{"hello",1.0,1}]\<close> give exactly two
  turns, labelled \<^verbatim>\<open>Speaker 1\<close> then \<^verbatim>\<open>Speaker 2\<close>, the first with the utterance
  \<^verbatim>\<open>hi there\<close>, the second with the time stamp \<^verbatim>\<open>[00:00:01]\<close>.

  The program gives the two turns, the labels and the utterances of the claim, but the time
  stamp of the second turn is \<^verbatim>\<open>[0:00:01]\<close>: the hours are not padded, as in C1. The theorem
  is the program's output at this input, as a list of lines and as the returned string.
\<close>

theorem C7_example_transcript:
  "transcript_lines example_words =
     Inr [''[0:00:00] Speaker 1: '' @ [dquote] @ ''hi there'' @ [dquote],
          ''[0:00:01] Speaker 2: '' @ [dquote] @ ''hello'' @ [dquote]] \<and>
   format_transcript (response_of_words example_words) =
     Inr (''[0:00:00] Speaker 1: '' @ [dquote] @ ''hi there'' @ [dquote] @ [newline]
          @ ''[0:00:01] Speaker 2: '' @ [dquote] @ ''hello'' @ [dquote])"
  unfolding example_words_def by code_simp

text \<open>
  C3. For every non-empty word sequence the segmenter emits exactly as many turns as there
  are maximal runs of consecutive words with the same speaker id, and the utterances of the
  turns, joined by single spaces, are the word texts in their order, joined by single spaces.

  The lines the program emits are the renderings of the specification's speaker turns, one
  line per turn; the number of maximal runs is the length of the speaker ids with adjacent
  duplicates removed. The hypothesis on the start times is the domain of \<open>seconds_to_hms\<close>:
  beyond \<open>999999999\<close> days the library's \<^verbatim>\<open>timedelta\<close> raises \<^verbatim>\<open>OverflowError\<close>.
\<close>

theorem C3_turns_are_maximal_runs:
  assumes "ws \<noteq> []" and "\<forall>w\<in>set ws. in_timedelta_range (start w)"
  shows "\<exists>lines. transcript_lines ws = Inr lines \<and>
           format_transcript (response_of_words ws) = Inr (join [newline] lines) \<and>
           length lines = length (remdups_adj (map speaker ws)) \<and>
           map Inr lines = map render_turn (speaker_turns ws) \<and>
           join '' '' (map utterance (speaker_turns ws)) = join '' '' (map word ws)"
proof -
  from transcript_lines_turns [OF assms(2)] obtain lines
    where l: "transcript_lines ws = Inr lines"
      and r: "map Inr lines = map render_turn (speaker_turns ws)" by blast
  have "length lines = length (map Inr lines :: (py_error + string) list)" by simp
  also have "\<dots> = length (runs ws)" by (simp only: r) (simp add: speaker_turns_def)
  finally have n: "length lines = length (remdups_adj (map speaker ws))"
    by (simp add: length_runs)
  have f: "format_transcript (response_of_words ws) = Inr (join [newline] lines)"
    by (simp add: format_transcript_def response_of_words_def truthy_response_def l)
  from l f n r utterances_roundtrip [of ws] show ?thesis by blast
qed

theorem C3_turns_are_maximal_runs_witness:
  "example_words \<noteq> [] \<and> list_all (\<lambda>w. in_timedelta_range (start w)) example_words \<and>
   (\<exists>lines. transcript_lines example_words = Inr lines \<and> length lines = 2 \<and>
      join '' '' (map utterance (speaker_turns example_words)) = ''hi there hello'')"
proof -
  have h1: "example_words \<noteq> []" by (simp add: example_words_def)
  have h2: "\<forall>w\<in>set example_words. in_timedelta_range (start w)"
    by (simp add: example_words_def in_timedelta_range_def py_int_def)
  have "length (remdups_adj (map speaker example_words)) = 2"
    by (simp add: example_words_def)
  moreover have "join '' '' (map word example_words) = ''hi there hello''"
    by (simp add: example_words_def)
  ultimately show ?thesis
    using h1 h2 C3_turns_are_maximal_runs [OF h1 h2] by (auto simp: list_all_iff)
qed

text \<open>
  C8. The claim: for empty input the segmenter never raises and yields the ``no
  transcript'' sentinel string; a single-word input produces exactly one turn.

  The segmenter's input is the word sequence, and for the empty word sequence of a
  well-formed response the program returns the empty string, not the sentinel.
\<close>

theorem C8_counterexample:
  "format_transcript (response_of_words []) = Inr [] \<and> [] \<noteq> no_transcription"
  by (simp add: format_transcript_def response_of_words_def truthy_response_def
        transcript_lines_def no_transcription_def)

text \<open>
  C8, as the program has it: for an absent result (\<^verbatim>\<open>None\<close>), an empty dictionary, or a
  dictionary without the key \<^verbatim>\<open>results\<close>, the segmenter returns the sentinel without raising;
  for a well-formed response with an empty word list it returns the empty string without
  raising; a single word (with a start time \<^verbatim>\<open>timedelta\<close> can hold) gives exactly one line,
  the rendering of the one turn made of that word.
\<close>

theorem C8_empty_input:
  "format_transcript None = Inr no_transcription \<and>
   format_transcript (Some \<lparr>metadata = None, results = None\<rparr>) = Inr no_transcription \<and>
   format_transcript (Some \<lparr>metadata = m, results = None\<rparr>) = Inr no_transcription \<and>
   format_transcript (response_of_words []) = Inr [] \<and>
   (in_timedelta_range (start w) \<longrightarrow>
      (\<exists>line. transcript_lines [w] = Inr [line] \<and>
         Inr line = render_turn (turn_of_run (w, [])) \<and>
         format_transcript (response_of_words [w]) = Inr line))"
proof -
  have "\<exists>line. transcript_lines [w] = Inr [line] \<and>
         Inr line = render_turn (turn_of_run (w, [])) \<and>
         format_transcript (response_of_words [w]) = Inr line"
    if r: "in_timedelta_range (start w)"
  proof -
    have "\<forall>v\<in>set [w]. in_timedelta_range (start v)" using r by simp
    from transcript_lines_turns [OF this] obtain lines
      where l: "transcript_lines [w] = Inr lines"
        and m: "map Inr lines = map render_turn (speaker_turns [w])" by blast
    from m obtain line where "lines = [line]" "Inr line = render_turn (turn_of_run (w, []))"
      by (auto simp: speaker_turns_def)
    with l show ?thesis
      by (simp add: format_transcript_def response_of_words_def truthy_response_def)
  qed
  then show ?thesis
    by (simp add: format_transcript_def response_of_words_def truthy_response_def
        transcript_lines_def)
qed

theorem C8_empty_input_witness:
  "in_timedelta_range (start \<lparr>word = ''hi'', start = 0, speaker = 0\<rparr>) \<and>
   transcript_lines [\<lparr>word = ''hi'', start = 0, speaker = 0\<rparr>]
     = Inr [''[0:00:00] Speaker 1: '' @ [dquote] @ ''hi'' @ [dquote]]"
proof -
  have h: "in_timedelta_range (start \<lparr>word = ''hi'', start = 0, speaker = 0\<rparr>)"
    by (simp add: in_timedelta_range_def py_int_def)
  have "render_turn (turn_of_run (\<lparr>word = ''hi'', start = 0, speaker = 0\<rparr>, []))
      = Inr (''[0:00:00] Speaker 1: '' @ [dquote] @ ''hi'' @ [dquote])"
    by code_simp
  with h C8_empty_input [where w = "\<lparr>word = ''hi'', start = 0, speaker = 0\<rparr>"]
  show ?thesis by auto
qed

text \<open>
  C10. The segmenter returns the sentinel \<^verbatim>\<open>No transcription available\<close> exactly when the
  result is absent or falsy or has no key \<^verbatim>\<open>results\<close>; a well-formed result whose word list
  is empty yields the empty string, which is not the sentinel.
\<close>

theorem C10_sentinel_exactly_without_results:
  "(format_transcript result = Inr no_transcription)
     = (\<not> truthy_response result \<or> (case result of None \<Rightarrow> True | Some r \<Rightarrow> results r = None)) \<and>
   (\<forall>r rs ch chs alt alts.
      results r = Some rs \<and> channels rs = Some (ch # chs) \<and>
      alternatives ch = Some (alt # alts) \<and> words alt = Some []
      \<longrightarrow> format_transcript (Some r) = Inr [] \<and> [] \<noteq> no_transcription)"
proof -
  have a: "(format_transcript result = Inr no_transcription)
     = (\<not> truthy_response result \<or> (case result of None \<Rightarrow> True | Some r \<Rightarrow> results r = None))"
    by (auto simp: format_transcript_def truthy_response_def
          split: option.splits list.splits sum.splits dest: join_lines_not_sentinel)
  have b: "format_transcript (Some r) = Inr [] \<and> [] \<noteq> no_transcription"
    if "results r = Some rs \<and> channels rs = Some (ch # chs) \<and>
      alternatives ch = Some (alt # alts) \<and> words alt = Some []"
    for r rs ch chs alt alts
    using that
    by (simp add: format_transcript_def truthy_response_def transcript_lines_def
          no_transcription_def)
  from a b show ?thesis by blast
qed

theorem C10_sentinel_exactly_without_results_witness:
  "format_transcript (response_of_words []) = Inr [] \<and>
   format_transcript (response_of_words []) \<noteq> Inr no_transcription \<and>
   format_transcript (Some \<lparr>metadata = Some ''m'', results = None\<rparr>) = Inr no_transcription"
  using C10_sentinel_exactly_without_results
          [of "Some \<lparr>metadata = Some ''m'', results = None\<rparr>"]
        C10_sentinel_exactly_without_results [of "response_of_words []"]
  by (simp add: response_of_words_def truthy_response_def)

section \<open>The batch claims\<close>

text \<open>
  C6. For a batch of N files in which the transcription of exactly one file k fails and
  every other step succeeds, the loop runs to its end without raising, the insight list
  grows by exactly N - 1 entries, those of the other files in the order supplied, the
  failure count is 1 and the success count is N - 1. (The handler processes the files only
  when a Deepgram key is given and the Gemini API is configured.)
\<close>

theorem C6_one_failed_transcription:
  assumes "deepgram_key \<noteq> []" and "api_configured s"
    and "k < length files"
    and "transcription_failed (files ! k)"
    and "\<forall>i<length files. i \<noteq> k \<longrightarrow> analysed_ok (files ! i)"
  shows "\<exists>b. analyze_calls deepgram_key files s = (b, None) \<and>
           call_insights (session b)
             = call_insights s @ map insight_of (take k files @ drop (Suc k) files) \<and>
           length (call_insights (session b)) = length (call_insights s) + (length files - 1) \<and>
           failed_analyses b = 1 \<and>
           successful_analyses b = length files - 1"
proof -
  let ?b0 = "\<lparr>session = s, successful_analyses = 0, failed_analyses = 0\<rparr>"
  have split: "files = take k files @ [files ! k] @ drop (Suc k) files"
    using assms(3) by (simp add: id_take_nth_drop [symmetric])
  have pre: "\<forall>a\<in>set (take k files). analysed_ok a"
  proof
    fix a assume "a \<in> set (take k files)"
    then obtain i where "i < length (take k files)" "a = take k files ! i"
      by (auto simp: in_set_conv_nth)
    with assms(3,5) show "analysed_ok a" by simp
  qed
  have post: "\<forall>a\<in>set (drop (Suc k) files). analysed_ok a"
  proof
    fix a assume "a \<in> set (drop (Suc k) files)"
    then obtain i where i: "i < length (drop (Suc k) files)" "a = drop (Suc k) files ! i"
      by (auto simp: in_set_conv_nth)
    then have "a = files ! (Suc k + i)" "Suc k + i < length files" "Suc k + i \<noteq> k"
      using assms(3) by simp_all
    with assms(5) show "analysed_ok a" by blast
  qed
  from process_files_all_ok [OF pre, of ?b0] obtain b1 where
    b1: "process_files (take k files) ?b0 = (b1, None)"
      "call_insights (session b1) = call_insights s @ map insight_of (take k files)"
      "successful_analyses b1 = k" "failed_analyses b1 = 0"
    using assms(3) by auto
  let ?b2 = "b1\<lparr>failed_analyses := failed_analyses b1 + 1\<rparr>"
  from process_files_all_ok [OF post, of ?b2] obtain b3 where
    b3: "process_files (drop (Suc k) files) ?b2 = (b3, None)"
      "call_insights (session b3)
         = call_insights (session ?b2) @ map insight_of (drop (Suc k) files)"
      "successful_analyses b3 = successful_analyses ?b2 + length (drop (Suc k) files)"
      "failed_analyses b3 = failed_analyses ?b2"
    by blast
  have "process_files files ?b0 = process_files (take k files @ [files ! k] @ drop (Suc k) files) ?b0"
    using split by simp
  also have "\<dots> = process_files ([files ! k] @ drop (Suc k) files) b1"
    by (simp only: process_files_append [of "take k files"] b1(1)) simp
  also have "\<dots> = process_files (drop (Suc k) files) ?b2"
    by (simp add: process_file_untranscribed [OF assms(4)])
  finally have run: "process_files files ?b0 = (b3, None)" using b3(1) by simp
  have "analyze_calls deepgram_key files s = (b3, None)"
    using assms(1,2) run by (simp add: analyze_calls_def)
  moreover have "call_insights (session b3)
      = call_insights s @ map insight_of (take k files @ drop (Suc k) files)"
    using b3(2) b1(2) by simp
  moreover have "length (call_insights (session b3)) = length (call_insights s) + (length files - 1)"
    using b3(2) b1(2) assms(3) by simp
  moreover have "failed_analyses b3 = 1" using b3(4) b1(4) by simp
  moreover have "successful_analyses b3 = length files - 1"
    using b3(3) b1(3) assms(3) by simp
  ultimately show ?thesis by blast
qed

theorem C6_one_failed_transcription_witness:
  "analysed_ok example_ok_1 \<and> transcription_failed example_untranscribed \<and>
   analysed_ok example_ok_2 \<and>
   (\<exists>b. analyze_calls ''key'' [example_ok_1, example_untranscribed, example_ok_2]
            (initial_state\<lparr>api_configured := True\<rparr>) = (b, None) \<and>
      call_insights (session b) = [insight_of example_ok_1, insight_of example_ok_2] \<and>
      failed_analyses b = 1 \<and> successful_analyses b = 2)"
proof -
  let ?files = "[example_ok_1, example_untranscribed, example_ok_2]"
  let ?s = "initial_state\<lparr>api_configured := True\<rparr>"
  have h1: "''key'' \<noteq> []" by simp
  have h2: "api_configured ?s" by simp
  have h3: "1 < length ?files" by simp
  have h4: "transcription_failed (?files ! 1)" by (simp add: example_untranscribed_failed)
  have h5: "\<forall>i<length ?files. i \<noteq> 1 \<longrightarrow> analysed_ok (?files ! i)"
    by (auto simp: less_Suc_eq example_ok_1_ok example_ok_2_ok)
  from C6_one_failed_transcription [OF h1 h2 h3 h4 h5]
  show ?thesis
    by (auto simp: example_ok_1_ok example_ok_2_ok example_untranscribed_failed
          initial_state_def)
qed

text \<open>
  C9. In the per-file processing the transcript record is appended to \<^verbatim>\<open>transcriptions\<close> as
  soon as the transcription has succeeded and been formatted, whatever the insight
  extraction then returns; when the extraction fails, the file counts as a failed analysis,
  the insight list is unchanged, and the transcript record stays: it is still in
  \<^verbatim>\<open>transcriptions\<close> when the loop over the remaining files has ended or raised.
\<close>

theorem C9_transcript_kept_when_analysis_fails:
  assumes "truthy_response (transcription_result audio)"
    and "format_transcript (transcription_result audio) = Inr formatted"
  shows "\<exists>b'. process_file audio b = Inr b' \<and>
           transcriptions (session b') = transcriptions (session b) @
             [\<lparr>t_filename = file_name audio, t_transcript = formatted,
               t_timestamp = transcribed_at audio\<rparr>] \<and>
           (\<not> truthy_str (insights_result audio) \<longrightarrow>
              call_insights (session b') = call_insights (session b) \<and>
              failed_analyses b' = failed_analyses b + 1 \<and>
              successful_analyses b' = successful_analyses b) \<and>
           (\<exists>ts. transcriptions (session (fst (process_files (audio # rest) b))) =
              transcriptions (session b) @
                \<lparr>t_filename = file_name audio, t_transcript = formatted,
                  t_timestamp = transcribed_at audio\<rparr> # ts)"
proof -
  let ?rec = "\<lparr>t_filename = file_name audio, t_transcript = formatted,
               t_timestamp = transcribed_at audio\<rparr>"
  from assms obtain b' where b': "process_file audio b = Inr b'"
    and t: "transcriptions (session b') = transcriptions (session b) @ [?rec]"
    and f: "\<not> truthy_str (insights_result audio) \<longrightarrow>
              call_insights (session b') = call_insights (session b) \<and>
              failed_analyses b' = failed_analyses b + 1 \<and>
              successful_analyses b' = successful_analyses b"
    by (cases "truthy_str (insights_result audio)") (simp_all add: process_file_def Let_def)
  from process_files_same_workflow [of b' rest]
  obtain ts where "transcriptions (session (fst (process_files rest b')))
      = transcriptions (session b') @ ts"
    by (auto simp: same_workflow_def)
  with b' t have "transcriptions (session (fst (process_files (audio # rest) b)))
      = transcriptions (session b) @ ?rec # ts" by simp
  with b' t f show ?thesis by blast
qed

theorem C9_transcript_kept_when_analysis_fails_witness:
  "truthy_response (transcription_result example_unanalysed) \<and>
   \<not> truthy_str (insights_result example_unanalysed) \<and>
   (\<exists>b'. process_file example_unanalysed
            \<lparr>session = initial_state, successful_analyses = 0, failed_analyses = 0\<rparr> = Inr b' \<and>
      map t_filename (transcriptions (session b')) = [''d.mp3''] \<and>
      call_insights (session b') = [] \<and>
      failed_analyses b' = 1 \<and> successful_analyses b' = 0)"
proof -
  have h1: "truthy_response (transcription_result example_unanalysed)" by code_simp
  have h2: "format_transcript (transcription_result example_unanalysed) =
     Inr (''[0:00:00] Speaker 1: '' @ [dquote] @ ''hi there'' @ [dquote] @ [newline]
          @ ''[0:00:01] Speaker 2: '' @ [dquote] @ ''hello'' @ [dquote])" by code_simp
  have h3: "\<not> truthy_str (insights_result example_unanalysed)" by code_simp
  have n: "file_name example_unanalysed = ''d.mp3''" by (simp add: example_unanalysed_def)
  from C9_transcript_kept_when_analysis_fails [OF h1 h2,
      of "\<lparr>session = initial_state, successful_analyses = 0, failed_analyses = 0\<rparr>" "[]"]
  show ?thesis using h1 h3 n by (auto simp: initial_state_def)
qed

section \<open>The workflow claims\<close>

text \<open>
  C5. After the reset, whatever the session dictionary held before, a read of the primary
  prompt, the master prompt, the insight list and the refinement list (and of the
  transcriptions, the agent details, the refinement chat and the phase) returns the initial
  value. The handler has no failing path and is one transition, so all keys are cleared
  together; on a typed state the result is the initial state but for \<^verbatim>\<open>api_configured\<close>,
  which the handler does not delete.
\<close>

theorem C5_reset_restores_initial_state:
  "reset_all_progress_dict d ''primary_prompt'' = Some PyNone \<and>
   reset_all_progress_dict d ''master_prompt'' = Some PyNone \<and>
   reset_all_progress_dict d ''call_insights'' = Some (PyInsights []) \<and>
   reset_all_progress_dict d ''refinement_history'' = Some (PyRefinements []) \<and>
   reset_all_progress_dict d ''transcriptions'' = Some (PyTranscriptions []) \<and>
   reset_all_progress_dict d ''agent_details'' = Some (PyAgent []) \<and>
   reset_all_progress_dict d ''refinement_chat'' = Some (PyChat []) \<and>
   reset_all_progress_dict d ''current_phase'' = Some (PyInt 1) \<and>
   reset_all_progress_dict (dict_of s) = dict_of (reset_all_progress s) \<and>
   primary_prompt (step Reset_All_Progress s) = None \<and>
   master_prompt (step Reset_All_Progress s) = None \<and>
   call_insights (step Reset_All_Progress s) = [] \<and>
   refinement_history (step Reset_All_Progress s) = [] \<and>
   step Reset_All_Progress s = initial_state\<lparr>api_configured := api_configured s\<rparr>"
  by (simp only: reset_dict_reads reset_dict_of step.simps)
     (simp add: reset_all_progress_def initial_state_def)




text \<open>
  C4. The claim: applying a refinement appends exactly one record whose old prompt is the
  master prompt immediately before the call, sets the master prompt to the new text, and
  thereby keeps the refinement list a linear version history, in which the new prompt of
  record k is the prompt in effect before record k+1.

  The first two parts hold. The third fails when the master prompt is regenerated between
  two refinements: ``Regenerate Master Prompt'' clears the master prompt and keeps the
  history, so the next record's old prompt is the regenerated text, not the previous
  record's new prompt.
\<close>

theorem C4_counterexample:
  "map old_prompt (refinement_history (run example_regenerated initial_state))
     = [Some ''M0'', Some ''M2''] \<and>
   map new_prompt (refinement_history (run example_regenerated initial_state))
     = [''M1'', ''M3''] \<and>
   \<not> linear_history (refinement_history (run example_regenerated initial_state))"
  by code_simp

text \<open>
  C4, as the program has it. An accepted refinement (a master prompt exists, the feedback
  is not blank, the API is configured, the generated text is not empty) appends exactly one
  record, whose old prompt is the master prompt immediately before the call and whose new
  prompt is the new text, and sets the master prompt to the new text. If the history was
  linear and ended in the current master prompt, it still is and does afterwards; this is
  preserved by every action but ``Regenerate Master Prompt'', so the history is linear in
  every state reached from the initial one without that action.
\<close>

theorem C4_refinement_appends_one_record:
  "(truthy_str (master_prompt s) \<and> \<not> blank user_feedback \<and> api_configured s \<and> new \<noteq> [] \<longrightarrow>
      refinement_history (step (Refine_Prompt user_feedback (Some new) now) s) =
        refinement_history s @
          [\<lparr>feedback = user_feedback, old_prompt = master_prompt s, new_prompt = new,
            summary = ''Updated prompt based on: '' @ take 100 user_feedback
                      @ (if length user_feedback > 100 then ''...'' else []),
            r_timestamp = now\<rparr>] \<and>
      master_prompt (step (Refine_Prompt user_feedback (Some new) now) s) = Some new \<and>
      (history_current s \<longrightarrow>
         history_current (step (Refine_Prompt user_feedback (Some new) now) s))) \<and>
   (history_current s \<and> Regenerate_Master_Prompt \<notin> set evs \<longrightarrow> history_current (run evs s)) \<and>
   (Regenerate_Master_Prompt \<notin> set evs \<longrightarrow>
      linear_history (refinement_history (run evs initial_state)))"
proof -
  have 1: "truthy_str (master_prompt s) \<and> \<not> blank user_feedback \<and> api_configured s \<and> new \<noteq> [] \<longrightarrow>
      refinement_history (step (Refine_Prompt user_feedback (Some new) now) s) =
        refinement_history s @
          [\<lparr>feedback = user_feedback, old_prompt = master_prompt s, new_prompt = new,
            summary = ''Updated prompt based on: '' @ take 100 user_feedback
                      @ (if length user_feedback > 100 then ''...'' else []),
            r_timestamp = now\<rparr>] \<and>
      master_prompt (step (Refine_Prompt user_feedback (Some new) now) s) = Some new \<and>
      (history_current s \<longrightarrow>
         history_current (step (Refine_Prompt user_feedback (Some new) now) s))"
  proof -
    have "history_current s \<longrightarrow>
         history_current (step (Refine_Prompt user_feedback (Some new) now) s)"
      by (simp add: history_current_refine)
    moreover have "truthy_str (master_prompt s) \<and> \<not> blank user_feedback \<and> api_configured s \<and>
        new \<noteq> [] \<longrightarrow>
      refinement_history (step (Refine_Prompt user_feedback (Some new) now) s) =
        refinement_history s @
          [\<lparr>feedback = user_feedback, old_prompt = master_prompt s, new_prompt = new,
            summary = ''Updated prompt based on: '' @ take 100 user_feedback
                      @ (if length user_feedback > 100 then ''...'' else []),
            r_timestamp = now\<rparr>] \<and>
      master_prompt (step (Refine_Prompt user_feedback (Some new) now) s) = Some new"
      by (simp add: refine_accepted)
    ultimately show ?thesis by blast
  qed
  have 2: "history_current s \<and> Regenerate_Master_Prompt \<notin> set evs \<longrightarrow> history_current (run evs s)"
    by (simp add: history_current_run)
  have 3: "Regenerate_Master_Prompt \<notin> set evs \<longrightarrow>
      linear_history (refinement_history (run evs initial_state))"
    using history_current_run [OF history_current_initial, of evs]
    by (simp add: history_current_def)
  from 1 2 3 show ?thesis by blast
qed

theorem C4_refinement_appends_one_record_witness:
  "map old_prompt (refinement_history (run example_refined initial_state))
     = [Some ''M0'', Some ''M1''] \<and>
   map new_prompt (refinement_history (run example_refined initial_state))
     = [''M1'', ''M2''] \<and>
   master_prompt (run example_refined initial_state) = Some ''M2'' \<and>
   linear_history (refinement_history (run example_refined initial_state))"
proof -
  have n: "Regenerate_Master_Prompt \<notin> set example_refined"
    by (simp add: example_refined_def example_first_insight_def)
  have "map old_prompt (refinement_history (run example_refined initial_state))
     = [Some ''M0'', Some ''M1'']"
    "map new_prompt (refinement_history (run example_refined initial_state))
     = [''M1'', ''M2'']"
    "master_prompt (run example_refined initial_state) = Some ''M2''"
    by code_simp+
  with n C4_refinement_appends_one_record [of initial_state "''x''" "''y''" 0 example_refined]
  show ?thesis by simp
qed

end
